theory Spec2Isabelle
  imports Main "HOL-Library.Sublist"
begin

section \<open>Python strings\<close>

text \<open>
  Strings are lists of characters with code points below 256.  \<open>is_space\<close> is
  \<^verbatim>\<open>str.isspace\<close> on one character of that range; \<^verbatim>\<open>str.strip()\<close>,
  \<^verbatim>\<open>str.lstrip()\<close> without argument remove such characters at the ends.
\<close>

definition is_space :: "char \<Rightarrow> bool" where
  "is_space c = (c \<in> set [CHR 0x09, CHR 0x0A, CHR 0x0B, CHR 0x0C, CHR 0x0D,
                           CHR 0x1C, CHR 0x1D, CHR 0x1E, CHR 0x1F, CHR 0x20,
                           CHR 0x85, CHR 0xA0])"

definition lstrip :: "string \<Rightarrow> string" where
  "lstrip s = dropWhile is_space s"

definition rstrip :: "string \<Rightarrow> string" where
  "rstrip s = rev (dropWhile is_space (rev s))"

definition strip :: "string \<Rightarrow> string" where
  "strip s = rstrip (lstrip s)"

text \<open>\<^verbatim>\<open>s.split(sep)\<close> for a separator of one character: every occurrence of the
  separator ends a piece, so two separators in a row enclose an empty piece and
  \<^verbatim>\<open>''.split(' ') == ['']\<close>.\<close>

fun split_sep :: "char \<Rightarrow> string \<Rightarrow> string list" where
  "split_sep sep [] = [[]]"
| "split_sep sep (c # cs) =
     (if c = sep then [] # split_sep sep cs
      else (case split_sep sep cs of
              [] \<Rightarrow> [[c]]
            | t # ts \<Rightarrow> (c # t) # ts))"

text \<open>\<^verbatim>\<open>sep.join(pieces)\<close> for a separator of one character.\<close>

fun join_sep :: "char \<Rightarrow> string list \<Rightarrow> string" where
  "join_sep sep [] = []"
| "join_sep sep [t] = t"
| "join_sep sep (t # u # ts) = t @ sep # join_sep sep (u # ts)"

text \<open>\<^verbatim>\<open>s.split()\<close> without argument, the whitespace tokenisation the specification
  speaks of: maximal runs of whitespace separate the pieces and no piece is empty.\<close>

fun split_whitespace_acc :: "string \<Rightarrow> string \<Rightarrow> string list" where
  "split_whitespace_acc acc [] = (if acc = [] then [] else [rev acc])"
| "split_whitespace_acc acc (c # cs) =
     (if is_space c
      then (if acc = [] then split_whitespace_acc [] cs
            else rev acc # split_whitespace_acc [] cs)
      else split_whitespace_acc (c # acc) cs)"

definition split_whitespace :: "string \<Rightarrow> string list" where
  "split_whitespace s = split_whitespace_acc [] s"

section \<open>Python dictionaries\<close>

text \<open>
  A \<^verbatim>\<open>dict\<close> keeps its keys in insertion order; assigning to a key that is present
  replaces the value in place, assigning to a new key appends it.
\<close>

type_synonym ('k, 'v) dict = "('k \<times> 'v) list"

fun dict_set :: "'k \<Rightarrow> 'v \<Rightarrow> ('k, 'v) dict \<Rightarrow> ('k, 'v) dict" where
  "dict_set k v [] = [(k, v)]"
| "dict_set k v (kv # d) = (if fst kv = k then (k, v) # d else kv # dict_set k v d)"

definition dict_get :: "('k, 'v) dict \<Rightarrow> 'k \<Rightarrow> 'v option" where
  "dict_get d k = map_of d k"

definition dict_keys :: "('k, 'v) dict \<Rightarrow> 'k list" where
  "dict_keys d = map fst d"

section \<open>Exceptions and values\<close>

text \<open>
  The exceptions that occur in \<^verbatim>\<open>shell.py\<close>.  \<^verbatim>\<open>SystemExit\<close> and
  \<^verbatim>\<open>KeyboardInterrupt\<close> derive from \<^verbatim>\<open>BaseException\<close> only, so
  \<^verbatim>\<open>except Exception\<close> does not catch them.
\<close>

datatype exn =
    SystemExit
  | KeyboardInterrupt
  | StopIteration
  | KeyError string
  | AttributeError string
  | TypeError string
  | ArgumentError string
  | RuntimeError string
  | OtherException string

fun is_Exception :: "exn \<Rightarrow> bool" where
  "is_Exception SystemExit = False"
| "is_Exception KeyboardInterrupt = False"
| "is_Exception StopIteration = True"
| "is_Exception (KeyError m) = True"
| "is_Exception (AttributeError m) = True"
| "is_Exception (TypeError m) = True"
| "is_Exception (ArgumentError m) = True"
| "is_Exception (RuntimeError m) = True"
| "is_Exception (OtherException m) = True"

text \<open>The value argparse stores for one argument: \<^verbatim>\<open>None\<close>, a string, or a list
  of strings.\<close>

datatype argval = VNone | VStr string | VList "string list"

fun truthy_argval :: "argval \<Rightarrow> bool" where
  "truthy_argval VNone = False"
| "truthy_argval (VStr s) = (s \<noteq> [])"
| "truthy_argval (VList l) = (l \<noteq> [])"

text \<open>\<^verbatim>\<open>argparse.Namespace\<close>: the attribute \<^verbatim>\<open>command\<close> set by the subparsers
  action (\<^verbatim>\<open>dest='command'\<close>, \<^verbatim>\<open>None\<close> when no subcommand was consumed), and the
  attributes of the arguments of the subcommand.\<close>

record namespace =
  ns_command :: "string option"
  ns_attrs :: "(string, argval) dict"

text \<open>The result of a handler is \<^verbatim>\<open>Optional[dict]\<close>.\<close>

type_synonym payload = "(string, string) dict"

text \<open>One argument declaration (the keyword arguments of \<^verbatim>\<open>add_argument\<close>) and the
  \<^verbatim>\<open>argument_set\<close> mapping of a command.\<close>

type_synonym argument_spec = "(string, string) dict"
type_synonym argument_set = "(string, argument_spec) dict"

section \<open>Command handlers\<close>

text \<open>
  A \<^verbatim>\<open>CommandHandler\<close> is one of the two built-in actions or a handler of the
  integrator: its \<^verbatim>\<open>handle\<close>, which returns a payload or \<^verbatim>\<open>None\<close> or raises,
  and its \<^verbatim>\<open>get_completions\<close> when it overrides the inherited one.
\<close>

datatype handler =
    HelpAction
  | ExitAction
  | UserHandler "namespace \<Rightarrow> exn + payload option" "(string \<Rightarrow> exn + string list) option"

definition HelpAction_ARG_SPEC :: argument_set where
  "HelpAction_ARG_SPEC =
     [(''action'', [(''help'', ''command name''), (''nargs'', ''?''), (''metavar'', ''<command>'')])]"

definition ExitAction_ARG_SPEC :: argument_set where
  "ExitAction_ARG_SPEC = []"

text \<open>Values passed through \<^verbatim>\<open>**kwargs\<close> of \<^verbatim>\<open>register_handler\<close>.\<close>

datatype kwval = KwStr string | KwArgs argument_set

section \<open>The shell state\<close>

record parser =
  parser_prog :: string
  parser_arguments :: argument_set

text \<open>The subparsers action of argparse: the parser of each subcommand, and one entry
  of the help listing for each \<^verbatim>\<open>add_parser\<close> call that passed \<^verbatim>\<open>help\<close>.\<close>

record subparsers_action =
  name_parser_map :: "(string, parser) dict"
  choices_actions :: "(string \<times> kwval option) list"

text \<open>\<^verbatim>\<open>ArgumentCompleter(argument_set, Shell.HandlerValueCompleter(handler))\<close>: the
  object keeps its two constructor arguments; the proxy value completer is the handler
  it wraps.\<close>

record argument_completer =
  ac_argument_set :: argument_set
  ac_value_completer :: handler

record shell_completer =
  description :: "(string, argument_completer) dict"
  nested :: "(string, argument_completer) dict"

record shell =
  display_result_as_json :: bool
  handler_map :: "(string, handler) dict"
  subparsers :: subparsers_action
  subparser_map :: "(string, parser) dict"
  completer :: shell_completer

section \<open>Collaborators\<close>

text \<open>
  What a call of \<^verbatim>\<open>ArgumentParser.parse_args\<close> can do: return a namespace; call
  \<^verbatim>\<open>error()\<close>, which writes the usage and the given message and raises
  \<^verbatim>\<open>SystemExit\<close>; print the help of the top-level parser (\<open>None\<close>) or of the parser
  of a command and raise \<^verbatim>\<open>SystemExit\<close>; or raise another exception, for example
  \<^verbatim>\<open>ArgumentError\<close> when the parser was configured with \<^verbatim>\<open>exit_on_error=False\<close>, or
  what a \<^verbatim>\<open>type=\<close> callable raises.
\<close>

datatype parse_result =
    Parsed namespace
  | ParserExit string
  | ParserHelp "string option"
  | ParserRaises exn

text \<open>
  What \<^verbatim>\<open>shell.py\<close> calls and does not define.
  \<^item> \<open>argparse_rejects_duplicates\<close>: from Python 3.11 on \<^verbatim>\<open>add_parser\<close> raises
    \<^verbatim>\<open>ArgumentError\<close> for a name that has a parser already; before, it replaces it.
  \<^item> \<open>add_parser_arguments\<close>: \<^verbatim>\<open>arguments.add_parser_arguments(parser, argument_set)\<close>
    mutates the parser and may raise.
  \<^item> \<open>ArgumentCompleter_init\<close>: the constructor of \<^verbatim>\<open>completion.ArgumentCompleter\<close>
    may raise.
  \<^item> \<open>parse_args\<close>: \<^verbatim>\<open>ArgumentParser.parse_args\<close> on the parser with its subparsers,
    as the \<^verbatim>\<open>parser_config\<close> of the integrator configured it.
  \<^item> \<open>present_error\<close>: \<^verbatim>\<open>json.dumps\<close> (flag \<open>True\<close>) or \<^verbatim>\<open>PrettyPrinter.pprint\<close> may
    raise an \<^verbatim>\<open>Exception\<close> with the given message on the payload handed to it.
  \<^item> \<open>ArgumentCompleter_get_completions\<close>: the completions of an
    \<^verbatim>\<open>ArgumentCompleter\<close> for the text after the command name, given its argument set
    and the \<^verbatim>\<open>get_completions\<close> of its value completer.
\<close>

record env =
  argparse_rejects_duplicates :: bool
  add_parser_arguments :: "parser \<Rightarrow> argument_set \<Rightarrow> parser \<times> exn option"
  ArgumentCompleter_init :: "argument_set \<Rightarrow> exn option"
  parse_args :: "subparsers_action \<Rightarrow> string list \<Rightarrow> parse_result"
  present_error :: "bool \<Rightarrow> payload \<Rightarrow> string option"
  ArgumentCompleter_get_completions ::
    "argument_set \<Rightarrow> (string \<Rightarrow> exn + string list) \<Rightarrow> string \<Rightarrow> exn + string list"

section \<open>Autocompletion\<close>

definition from_nested_dict ::
  "(string, argument_completer) dict \<Rightarrow> (string, argument_completer) dict" where
  "from_nested_dict data = fold (\<lambda>kv options. dict_set (fst kv) (snd kv) options) data []"

definition ShellCompleter_init :: shell_completer where
  "ShellCompleter_init = \<lparr>description = [], nested = from_nested_dict []\<rparr>"

definition add_completer :: "string \<Rightarrow> argument_completer \<Rightarrow> shell_completer \<Rightarrow> shell_completer" where
  "add_completer name arg_comp c =
     (let d = dict_set name arg_comp (description c)
      in \<lparr>description = d, nested = from_nested_dict d\<rparr>)"

section \<open>Registration\<close>

definition add_parser ::
  "env \<Rightarrow> string \<Rightarrow> kwval option \<Rightarrow> subparsers_action \<Rightarrow> exn + (parser \<times> subparsers_action)" where
  "add_parser E name help_desc sp =
     (if argparse_rejects_duplicates E \<and> name \<in> set (dict_keys (name_parser_map sp))
      then Inl (ArgumentError (''conflicting subparser: '' @ name))
      else (let p = \<lparr>parser_prog = name, parser_arguments = []\<rparr>
            in Inr (p, \<lparr>name_parser_map = dict_set name p (name_parser_map sp),
                        choices_actions = choices_actions sp @ [(name, help_desc)]\<rparr>)))"

definition truthy_argument_set :: "argument_set option \<Rightarrow> bool" where
  "truthy_argument_set a = (case a of None \<Rightarrow> False | Some s \<Rightarrow> s \<noteq> [])"

text \<open>
  \<^verbatim>\<open>register_handler(self, name, handler, argument_set=None, **kwargs)\<close>.  The result is
  the exception the call raised, if any, and the shell as the call left it.  The parser
  that \<^verbatim>\<open>add_parser\<close> returns is the object argparse keeps, so what
  \<^verbatim>\<open>add_parser_arguments\<close> does to it shows in \<open>name_parser_map\<close> too.
\<close>

definition register_handler ::
  "env \<Rightarrow> string \<Rightarrow> handler \<Rightarrow> argument_set option \<Rightarrow> (string, kwval) dict \<Rightarrow> shell
     \<Rightarrow> exn option \<times> shell" where
  "register_handler E name h argument_set kwargs s =
     (let help_desc = dict_get kwargs ''help'' in
      case add_parser E name help_desc (subparsers s) of
        Inl e \<Rightarrow> (Some e, s)
      | Inr (p, sp) \<Rightarrow>
          if truthy_argument_set argument_set then
            (case add_parser_arguments E p (the argument_set) of
               (p', Some e) \<Rightarrow>
                 (Some e, s\<lparr>subparsers := sp\<lparr>name_parser_map := dict_set name p' (name_parser_map sp)\<rparr>\<rparr>)
             | (p', None) \<Rightarrow>
                 (let s1 = s\<lparr>subparsers := sp\<lparr>name_parser_map := dict_set name p' (name_parser_map sp)\<rparr>\<rparr>
                  in case ArgumentCompleter_init E (the argument_set) of
                       Some e \<Rightarrow> (Some e, s1)
                     | None \<Rightarrow>
                         (None,
                          s1\<lparr>completer :=
                                add_completer name
                                  \<lparr>ac_argument_set = the argument_set, ac_value_completer = h\<rparr>
                                  (completer s1),
                              subparser_map := dict_set name p' (subparser_map s1),
                              handler_map := dict_set name h (handler_map s1)\<rparr>)))
          else
            (None,
             s\<lparr>subparsers := sp,
               subparser_map := dict_set name p (subparser_map s),
               handler_map := dict_set name h (handler_map s)\<rparr>))"

text \<open>
  \<^verbatim>\<open>register_builtin_handlers\<close> passes the argument specifications under the keyword
  \<^verbatim>\<open>arguments\<close>, which \<^verbatim>\<open>register_handler\<close> collects in \<^verbatim>\<open>**kwargs\<close>; its parameter
  \<^verbatim>\<open>argument_set\<close> keeps the default \<^verbatim>\<open>None\<close>.
\<close>

definition register_builtin_handlers :: "env \<Rightarrow> shell \<Rightarrow> exn option \<times> shell" where
  "register_builtin_handlers E s =
     (case register_handler E ''help'' HelpAction None
             [(''arguments'', KwArgs HelpAction_ARG_SPEC), (''help'', KwStr ''Print command help'')] s of
        (Some e, s1) \<Rightarrow> (Some e, s1)
      | (None, s1) \<Rightarrow>
          register_handler E ''exit'' ExitAction None
            [(''arguments'', KwArgs ExitAction_ARG_SPEC), (''help'', KwStr ''Exit shell'')] s1)"

text \<open>\<^verbatim>\<open>Shell.__init__\<close>, from the empty maps on; the prompt session and the key
  bindings belong to the front end.\<close>

definition Shell_init :: "env \<Rightarrow> bool \<Rightarrow> exn option \<times> shell" where
  "Shell_init E display_json =
     register_builtin_handlers E
       \<lparr>display_result_as_json = display_json,
        handler_map = [],
        subparsers = \<lparr>name_parser_map = [], choices_actions = []\<rparr>,
        subparser_map = [],
        completer = ShellCompleter_init\<rparr>"

section \<open>Completion queries\<close>

text \<open>\<^verbatim>\<open>[a-zA-Z0-9_]\<close>, the word characters of prompt_toolkit's word pattern.\<close>

definition is_word_char :: "char \<Rightarrow> bool" where
  "is_word_char c =
     (let n = (of_char c :: nat)
      in (48 \<le> n \<and> n \<le> 57) \<or> (65 \<le> n \<and> n \<le> 90) \<or> n = 95 \<or> (97 \<le> n \<and> n \<le> 122))"

text \<open>
  \<^verbatim>\<open>Document.get_word_before_cursor()\<close>: empty when the text is empty or ends in
  whitespace; otherwise the longest run at the end of the text made of word characters
  only, or of characters that are neither word characters nor whitespace only.
\<close>

definition get_word_before_cursor :: "string \<Rightarrow> string" where
  "get_word_before_cursor text =
     (if text = [] \<or> is_space (last text) then []
      else if is_word_char (last text) then rev (takeWhile is_word_char (rev text))
      else rev (takeWhile (\<lambda>c. \<not> is_word_char c \<and> \<not> is_space c) (rev text)))"

text \<open>\<^verbatim>\<open>str.lower()\<close> on code points below 256: the letters \<^verbatim>\<open>A\<close> to \<^verbatim>\<open>Z\<close> and the
  code points 192 to 222 except 215 move up by 32.\<close>

definition char_lower :: "char \<Rightarrow> char" where
  "char_lower c =
     (let n = (of_char c :: nat)
      in if (65 \<le> n \<and> n \<le> 90) \<or> (192 \<le> n \<and> n \<le> 222 \<and> n \<noteq> 215)
         then char_of (n + 32) else c)"

definition lower :: "string \<Rightarrow> string" where
  "lower s = map char_lower s"

text \<open>\<^verbatim>\<open>WordCompleter(words, ignore_case).get_completions\<close>: the words that start with
  the word before the cursor, in the order of \<open>words\<close>; with \<^verbatim>\<open>ignore_case\<close> both sides
  are compared in lower case.\<close>

definition WordCompleter_get_completions :: "string list \<Rightarrow> bool \<Rightarrow> string \<Rightarrow> string list" where
  "WordCompleter_get_completions words ignore_case text =
     (if ignore_case
      then filter (\<lambda>word. prefix (lower (get_word_before_cursor text)) (lower word)) words
      else filter (prefix (get_word_before_cursor text)) words)"

text \<open>
  \<^verbatim>\<open>CommandHandler.get_completions\<close> raises \<^verbatim>\<open>StopIteration\<close>; \<^verbatim>\<open>HelpAction\<close>
  overrides it with a \<^verbatim>\<open>WordCompleter\<close> over the keys of \<^verbatim>\<open>subparser_map\<close>;
  \<^verbatim>\<open>ExitAction\<close> inherits it.  The context is given by the text before the cursor of
  its document.
\<close>

fun handler_get_completions :: "shell \<Rightarrow> handler \<Rightarrow> string \<Rightarrow> exn + string list" where
  "handler_get_completions sh HelpAction ctx =
     Inr (WordCompleter_get_completions (dict_keys (subparser_map sh)) False ctx)"
| "handler_get_completions sh ExitAction ctx = Inl StopIteration"
| "handler_get_completions sh (UserHandler h None) ctx = Inl StopIteration"
| "handler_get_completions sh (UserHandler h (Some g)) ctx = g ctx"

definition HandlerValueCompleter_get_completions ::
  "shell \<Rightarrow> handler \<Rightarrow> string \<Rightarrow> exn + string list" where
  "HandlerValueCompleter_get_completions sh h ctx = handler_get_completions sh h ctx"

text \<open>A \<^verbatim>\<open>StopIteration\<close> that reaches the frame of a generator leaves it as a
  \<^verbatim>\<open>RuntimeError\<close> (PEP 479, Python 3.7 and later).\<close>

fun generator_raise :: "exn + 'a \<Rightarrow> exn + 'a" where
  "generator_raise (Inl StopIteration) = Inl (RuntimeError ''generator raised StopIteration'')"
| "generator_raise r = r"

text \<open>
  \<^verbatim>\<open>NestedCompleter.get_completions\<close> on the text before the cursor: with a space in the
  left-stripped text the completer of the first term completes the rest (nothing when
  the first term has none); without one it is a \<^verbatim>\<open>WordCompleter\<close> over the keys.
  \<^verbatim>\<open>from_nested_dict\<close> builds the completer with \<^verbatim>\<open>cls(options)\<close>, so its
  \<^verbatim>\<open>ignore_case\<close> has the default \<^verbatim>\<open>True\<close>, which it passes to the \<^verbatim>\<open>WordCompleter\<close>.
\<close>

definition NestedCompleter_get_completions ::
  "env \<Rightarrow> shell \<Rightarrow> (string, argument_completer) dict \<Rightarrow> string \<Rightarrow> exn + string list" where
  "NestedCompleter_get_completions E sh options text_before_cursor =
     (let text = lstrip text_before_cursor in
      if CHR '' '' \<in> set text then
        (let first_term = takeWhile (\<lambda>c. \<not> is_space c) text in
         case dict_get options first_term of
           None \<Rightarrow> Inr []
         | Some ac \<Rightarrow>
             generator_raise
               (ArgumentCompleter_get_completions E (ac_argument_set ac)
                  (HandlerValueCompleter_get_completions sh (ac_value_completer ac))
                  (lstrip (drop (length first_term) text))))
      else Inr (WordCompleter_get_completions (dict_keys options) True text_before_cursor))"

definition ShellCompleter_get_completions :: "env \<Rightarrow> shell \<Rightarrow> string \<Rightarrow> exn + string list" where
  "ShellCompleter_get_completions E sh text_before_cursor =
     NestedCompleter_get_completions E sh (nested (completer sh)) text_before_cursor"

section \<open>Dispatch\<close>

text \<open>What one iteration of \<^verbatim>\<open>run\<close> does that can be observed: the call of a handler,
  the error message argparse wrote before it raised \<^verbatim>\<open>SystemExit\<close>, a payload handed
  to \<^verbatim>\<open>json.dumps\<close> (flag \<open>True\<close>) or \<^verbatim>\<open>pprint\<close> for printing, the line
  \<^verbatim>\<open>print("command error:", exc)\<close>, and the help a parser printed (that of the
  top-level parser for \<open>None\<close>).\<close>

datatype event =
    Invoke string namespace
  | ParserMessage string
  | Present bool payload
  | PrintCommandError exn
  | PrintHelp "string option"

datatype status = Idle | Terminated exn

text \<open>\<^verbatim>\<open>handler.handle(command_args)\<close>: what it printed, and its result or the exception
  it raised.\<close>

fun handle :: "shell \<Rightarrow> handler \<Rightarrow> namespace \<Rightarrow> event list \<times> (exn + payload option)" where
  "handle sh HelpAction ns =
     (case dict_get (ns_attrs ns) ''action'' of
        None \<Rightarrow> ([], Inl (AttributeError ''action''))
      | Some a \<Rightarrow>
          if truthy_argval a then
            (case a of
               VStr n \<Rightarrow>
                 (case dict_get (subparser_map sh) n of
                    None \<Rightarrow> ([], Inl (KeyError n))
                  | Some p \<Rightarrow> ([PrintHelp (Some n)], Inr None))
             | _ \<Rightarrow> ([], Inl (TypeError ''unhashable type'')))
          else ([PrintHelp None], Inr None))"
| "handle sh ExitAction ns = ([], Inl SystemExit)"
| "handle sh (UserHandler h g) ns = ([], h ns)"

text \<open>The second \<^verbatim>\<open>try\<close> block of \<^verbatim>\<open>run\<close>, on the namespace the parser returned.\<close>

definition dispatch :: "env \<Rightarrow> shell \<Rightarrow> namespace \<Rightarrow> event list \<times> status" where
  "dispatch E sh ns =
     (case ns_command ns of
        None \<Rightarrow> ([PrintCommandError (KeyError ''None'')], Idle)
      | Some c \<Rightarrow>
          (case dict_get (handler_map sh) c of
             None \<Rightarrow> ([PrintCommandError (KeyError c)], Idle)
           | Some h \<Rightarrow>
               (case handle sh h ns of
                  (evs, Inl e) \<Rightarrow>
                    if is_Exception e then (Invoke c ns # evs @ [PrintCommandError e], Idle)
                    else (Invoke c ns # evs, Terminated e)
                | (evs, Inr None) \<Rightarrow> (Invoke c ns # evs, Idle)
                | (evs, Inr (Some r)) \<Rightarrow>
                    if r \<noteq> [] then
                      (case present_error E (display_result_as_json sh) r of
                         None \<Rightarrow>
                           (Invoke c ns # evs @ [Present (display_result_as_json sh) r], Idle)
                       | Some m \<Rightarrow>
                           (Invoke c ns # evs @
                              [Present (display_result_as_json sh) r,
                               PrintCommandError (TypeError m)], Idle))
                    else (Invoke c ns # evs, Idle))))"

definition tokenize :: "string \<Rightarrow> string list" where
  "tokenize text = split_sep CHR '' '' (strip text)"

text \<open>One iteration of the loop of \<^verbatim>\<open>run\<close> on what \<^verbatim>\<open>prompt()\<close> returned.  The first
  \<^verbatim>\<open>try\<close> block catches \<^verbatim>\<open>SystemExit\<close> only: any other exception of
  \<^verbatim>\<open>parse_args\<close> leaves \<^verbatim>\<open>run\<close>.\<close>

definition run_step :: "env \<Rightarrow> shell \<Rightarrow> string option \<Rightarrow> event list \<times> status" where
  "run_step E sh input =
     (case input of
        None \<Rightarrow> ([], Idle)
      | Some text \<Rightarrow>
          if strip text = [] then ([], Idle)
          else (case parse_args E (subparsers sh) (tokenize text) of
                  ParserExit m \<Rightarrow> ([ParserMessage m], Idle)
                | Parsed ns \<Rightarrow> dispatch E sh ns
                | ParserHelp target \<Rightarrow> ([PrintHelp target], Idle)
                | ParserRaises e \<Rightarrow>
                    if e = SystemExit then ([], Idle) else ([], Terminated e)))"

text \<open>
  \<^verbatim>\<open>run\<close> on the lines the prompt delivers, in order.  Each iteration waits for one
  line, so the loop is a recursion on the lines delivered so far: \<open>Idle\<close> says that the
  loop is back at the prompt, \<open>Terminated e\<close> that \<open>e\<close> left \<^verbatim>\<open>run\<close>.
\<close>

fun run :: "env \<Rightarrow> shell \<Rightarrow> string option list \<Rightarrow> event list \<times> status" where
  "run E sh [] = ([], Idle)"
| "run E sh (input # inputs) =
     (case run_step E sh input of
        (evs, Terminated e) \<Rightarrow> (evs, Terminated e)
      | (evs, Idle) \<Rightarrow> (case run E sh inputs of (evs', st) \<Rightarrow> (evs @ evs', st)))"

section \<open>A reference environment\<close>

text \<open>
  The theorems below hold for every environment.  To run the shell on concrete lines
  one environment is fixed here, for commands whose arguments are all positional.
\<close>

text \<open>Modelled from the spec: \<^verbatim>\<open>arguments.add_parser_arguments\<close> is not among the
  sources.  Section 6 asks of the grammar parser "a way to declare an Argument with
  name, arity, help": the reference declares every argument of the set on the parser,
  in the order of the set, and does not raise.\<close>

definition ref_add_parser_arguments :: "parser \<Rightarrow> argument_set \<Rightarrow> parser \<times> exn option" where
  "ref_add_parser_arguments p a = (p\<lparr>parser_arguments := parser_arguments p @ a\<rparr>, None)"

text \<open>Modelled from the spec: the validation of the tokens after the command name
  against the declared arguments (section 4.4 c: arity checks, missing required
  argument, excess positional tokens).  An argument without \<^verbatim>\<open>nargs\<close> takes exactly
  one token, \<^verbatim>\<open>nargs='?'\<close> takes one token if there is one, \<^verbatim>\<open>nargs='*'\<close> in last
  position takes all that remain.\<close>

fun ref_match :: "argument_set \<Rightarrow> string list \<Rightarrow> (string, argval) dict option" where
  "ref_match [] ts = (if ts = [] then Some [] else None)"
| "ref_match (a # rest) ts =
     (if dict_get (snd a) ''nargs'' = Some ''*'' then
        (if rest = [] then Some [(fst a, VList ts)] else None)
      else if dict_get (snd a) ''nargs'' = Some ''?'' then
        (case ts of
           [] \<Rightarrow> map_option ((#) (fst a, VNone)) (ref_match rest [])
         | t # ts' \<Rightarrow> map_option ((#) (fst a, VStr t)) (ref_match rest ts'))
      else
        (case ts of
           [] \<Rightarrow> None
         | t # ts' \<Rightarrow> map_option ((#) (fst a, VStr t)) (ref_match rest ts')))"

text \<open>A token that starts with the prefix character of options.\<close>

definition option_like :: "string \<Rightarrow> bool" where
  "option_like t = (case t of [] \<Rightarrow> False | c # cs \<Rightarrow> c = CHR ''-'')"

text \<open>The message of argparse for a first token that names no subcommand
  (\<^verbatim>\<open>argument command: invalid choice: ...\<close>).\<close>

definition invalid_choice_message :: "string \<Rightarrow> string" where
  "invalid_choice_message t = ''invalid choice: '' @ t"

text \<open>Modelled from the spec: \<^verbatim>\<open>parse_args\<close> of a parser whose only positional is
  the subparsers action (section 4.4 b and c), with the help option that argparse adds
  by default.  A first token \<^verbatim>\<open>-h\<close> or \<^verbatim>\<open>--help\<close> prints the help of the top-level
  parser; otherwise the first token selects the parser of that name, and the others
  are validated against its arguments (or ask for its help).  A first token that names
  no parser is an \<^verbatim>\<open>ArgumentError\<close>: by default argparse turns it into \<^verbatim>\<open>error()\<close>,
  with \<^verbatim>\<open>exit_on_error=False\<close> it raises it.  Tokens that do not fit the arguments
  of the command are reported through \<^verbatim>\<open>error()\<close> in both configurations.\<close>

definition ref_parse_args_config :: "bool \<Rightarrow> subparsers_action \<Rightarrow> string list \<Rightarrow> parse_result" where
  "ref_parse_args_config exit_on_error sp tokens =
     (case tokens of
        [] \<Rightarrow> Parsed \<lparr>ns_command = None, ns_attrs = []\<rparr>
      | t # ts \<Rightarrow>
          if t = ''-h'' \<or> t = ''--help'' then ParserHelp None
          else
            (case dict_get (name_parser_map sp) t of
               None \<Rightarrow>
                 if exit_on_error then ParserExit (invalid_choice_message t)
                 else ParserRaises (ArgumentError (invalid_choice_message t))
             | Some p \<Rightarrow>
                 if ''-h'' \<in> set ts \<or> ''--help'' \<in> set ts then ParserHelp (Some t)
                 else
                   (case ref_match (parser_arguments p) ts of
                      None \<Rightarrow> ParserExit (''usage: '' @ t)
                    | Some attrs \<Rightarrow> Parsed \<lparr>ns_command = Some t, ns_attrs = attrs\<rparr>)))"

definition ref_parse_args :: "subparsers_action \<Rightarrow> string list \<Rightarrow> parse_result" where
  "ref_parse_args sp tokens = ref_parse_args_config True sp tokens"

text \<open>Modelled from the spec: \<^verbatim>\<open>completion.ArgumentCompleter\<close> is not among the
  sources.  Section 4.3, step 4: the completer delegates to the bound value completer
  with the context.\<close>

definition ref_ArgumentCompleter_get_completions ::
  "argument_set \<Rightarrow> (string \<Rightarrow> exn + string list) \<Rightarrow> string \<Rightarrow> exn + string list" where
  "ref_ArgumentCompleter_get_completions a value_completer text = value_completer text"

definition ref_env :: env where
  "ref_env =
     \<lparr>argparse_rejects_duplicates = True,
      add_parser_arguments = ref_add_parser_arguments,
      ArgumentCompleter_init = (\<lambda>a. None),
      parse_args = ref_parse_args,
      present_error = (\<lambda>j r. None),
      ArgumentCompleter_get_completions = ref_ArgumentCompleter_get_completions\<rparr>"

text \<open>The reference environment with a parser configured with
  \<^verbatim>\<open>exit_on_error=False\<close>, and the reference environment on a Python before 3.11.\<close>

definition no_exit_env :: env where
  "no_exit_env = ref_env\<lparr>parse_args := ref_parse_args_config False\<rparr>"

definition legacy_env :: env where
  "legacy_env = ref_env\<lparr>argparse_rejects_duplicates := False\<rparr>"

section \<open>Sequences of registrations\<close>

text \<open>The shell after a sequence of \<^verbatim>\<open>register_handler\<close> calls, each given by its
  name, handler, \<^verbatim>\<open>argument_set\<close> and keyword arguments.  A call that raised leaves the
  shell as it was at the raise, and the sequence goes on from there.\<close>

type_synonym registration = "string \<times> handler \<times> argument_set option \<times> (string, kwval) dict"

definition register_call :: "env \<Rightarrow> registration \<Rightarrow> shell \<Rightarrow> exn option \<times> shell" where
  "register_call E r s =
     (case r of (name, h, argument_set, kwargs) \<Rightarrow> register_handler E name h argument_set kwargs s)"

definition register_all :: "env \<Rightarrow> registration list \<Rightarrow> shell \<Rightarrow> shell" where
  "register_all E rs s = fold (\<lambda>r s'. snd (register_call E r s')) rs s"

section \<open>Reading a trace\<close>

text \<open>The handler calls of a trace, in order.\<close>

fun invocations :: "event list \<Rightarrow> (string \<times> namespace) list" where
  "invocations [] = []"
| "invocations (Invoke c ns # evs) = (c, ns) # invocations evs"
| "invocations (ev # evs) = invocations evs"

section \<open>An example session\<close>

text \<open>
  A shell in the reference environment with five commands besides the built-in ones:
  \<^verbatim>\<open>grep\<close> (one argument, returns nothing, inherits \<^verbatim>\<open>get_completions\<close>),
  \<^verbatim>\<open>greet\<close> (one argument \<^verbatim>\<open>name\<close>, returns a greeting, completes \<^verbatim>\<open>alice\<close> and
  \<^verbatim>\<open>bob\<close>), \<^verbatim>\<open>status\<close> (returns the empty dictionary), \<^verbatim>\<open>fail\<close> (raises an
  \<^verbatim>\<open>Exception\<close>) and \<^verbatim>\<open>deploy\<close> (raises \<^verbatim>\<open>SystemExit\<close>, as a call of
  \<^verbatim>\<open>sys.exit\<close> does).
\<close>

definition greet_handle :: "namespace \<Rightarrow> exn + payload option" where
  "greet_handle ns =
     (case dict_get (ns_attrs ns) ''name'' of
        Some (VStr n) \<Rightarrow> Inr (Some [(''greeting'', ''hello '' @ n)])
      | _ \<Rightarrow> Inl (AttributeError ''name''))"

definition greet_completions :: "string \<Rightarrow> exn + string list" where
  "greet_completions ctx = Inr (WordCompleter_get_completions [''alice'', ''bob''] False ctx)"

definition example_registrations :: "registration list" where
  "example_registrations =
     [(''grep'', UserHandler (\<lambda>ns. Inr None) None, Some [(''pattern'', [(''help'', ''pattern'')])], []),
      (''greet'', UserHandler greet_handle (Some greet_completions),
         Some [(''name'', [(''help'', ''who to greet'')])], [(''help'', KwStr ''Greet'')]),
      (''status'', UserHandler (\<lambda>ns. Inr (Some [])) None, None, []),
      (''fail'', UserHandler (\<lambda>ns. Inl (OtherException ''boom'')) None, None, []),
      (''deploy'', UserHandler (\<lambda>ns. Inl SystemExit) None, None, [])]"

definition example_shell :: shell where
  "example_shell = register_all ref_env example_registrations (snd (Shell_init ref_env True))"

section \<open>Strings and dictionaries: basic facts\<close>

lemma split_sep_not_Nil: "split_sep sep s \<noteq> []"
  by (induction s) (auto split: list.splits)

lemma join_sep_Cons_Cons: "join_sep sep ((c # t) # ts) = c # join_sep sep (t # ts)"
  by (cases ts) simp_all

lemma join_split_sep: "join_sep sep (split_sep sep s) = s"
proof (induction s)
  case Nil
  show ?case by simp
next
  case (Cons c cs)
  obtain t ts where ts: "split_sep sep cs = t # ts"
    using split_sep_not_Nil [of sep cs] by (cases "split_sep sep cs") auto
  show ?case
  proof (cases "c = sep")
    case True
    with Cons ts show ?thesis by simp
  next
    case False
    with Cons ts show ?thesis by (simp add: join_sep_Cons_Cons)
  qed
qed

lemma split_sep_no_sep: "sep \<notin> set (concat (split_sep sep s))"
  by (induction s) (auto split: list.splits)

lemma length_split_sep: "length (split_sep sep s) = Suc (length (filter (\<lambda>c. c = sep) s))"
  by (induction s) (auto split: list.splits)

lemma set_dict_keys_dict_set: "set (dict_keys (dict_set k v d)) = insert k (set (dict_keys d))"
  by (induction d) (auto simp: dict_keys_def)

lemma dict_keys_dict_set:
  "dict_keys (dict_set k v d) = (if k \<in> set (dict_keys d) then dict_keys d else dict_keys d @ [k])"
  by (induction d) (auto simp: dict_keys_def)

lemma dict_set_idem: "dict_set k v (dict_set k v' d) = dict_set k v d"
  by (induction d) auto

lemma dict_get_dict_set: "dict_get (dict_set k v d) k' = (if k' = k then Some v else dict_get d k')"
  by (induction d) (auto simp: dict_get_def)

lemma distinct_dict_set: "distinct (dict_keys d) \<Longrightarrow> distinct (dict_keys (dict_set k v d))"
  by (simp add: dict_keys_dict_set)

lemma fold_dict_set_distinct:
  "distinct (map fst (acc @ d)) \<Longrightarrow>
   fold (\<lambda>kv options. dict_set (fst kv) (snd kv) options) d acc = acc @ d"
proof (induction d arbitrary: acc)
  case Nil
  show ?case by simp
next
  case (Cons kv d)
  have new: "fst kv \<notin> set (dict_keys acc)"
    using Cons.prems by (auto simp: dict_keys_def)
  have app: "dict_set (fst kv) (snd kv) acc = acc @ [kv]"
    using new by (induction acc) (auto simp: dict_keys_def)
  show ?case
    using Cons.IH [of "acc @ [kv]"] Cons.prems by (simp add: app)
qed

lemma from_nested_dict_distinct: "distinct (dict_keys d) \<Longrightarrow> from_nested_dict d = d"
  using fold_dict_set_distinct [of "[]" d] by (simp add: from_nested_dict_def dict_keys_def)


section \<open>The example session, evaluated\<close>

lemmas ref_simps = ref_env_def ref_parse_args_def ref_parse_args_config_def
  invalid_choice_message_def ref_add_parser_arguments_def
  ref_ArgumentCompleter_get_completions_def
lemmas reg_simps = Shell_init_def register_builtin_handlers_def register_handler_def add_parser_def
  truthy_argument_set_def dict_keys_def dict_get_def Let_def ShellCompleter_init_def
  add_completer_def from_nested_dict_def register_all_def register_call_def
  example_registrations_def

lemmas line_simps = run_step_def tokenize_def strip_def lstrip_def rstrip_def is_space_def
  dispatch_def dict_get_def

lemmas completion_simps = ShellCompleter_get_completions_def NestedCompleter_get_completions_def
  WordCompleter_get_completions_def get_word_before_cursor_def is_word_char_def
  HandlerValueCompleter_get_completions_def lstrip_def is_space_def dict_get_def dict_keys_def
  lower_def char_lower_def char_of_def bit_Suc_0_iff

lemma fresh_shell_eval:
  "snd (Shell_init ref_env True) =
     \<lparr>display_result_as_json = True,
      handler_map = [(''help'', HelpAction), (''exit'', ExitAction)],
      subparsers = \<lparr>name_parser_map =
                      [(''help'', \<lparr>parser_prog = ''help'', parser_arguments = []\<rparr>),
                       (''exit'', \<lparr>parser_prog = ''exit'', parser_arguments = []\<rparr>)],
                    choices_actions =
                      [(''help'', Some (KwStr ''Print command help'')),
                       (''exit'', Some (KwStr ''Exit shell''))]\<rparr>,
      subparser_map =
        [(''help'', \<lparr>parser_prog = ''help'', parser_arguments = []\<rparr>),
         (''exit'', \<lparr>parser_prog = ''exit'', parser_arguments = []\<rparr>)],
      completer = \<lparr>description = [], nested = []\<rparr>\<rparr>"
  by (simp add: reg_simps ref_simps)

lemma example_shell_eval:
  "handler_map example_shell =
     [(''help'', HelpAction), (''exit'', ExitAction),
      (''grep'', UserHandler (\<lambda>ns. Inr None) None),
      (''greet'', UserHandler greet_handle (Some greet_completions)),
      (''status'', UserHandler (\<lambda>ns. Inr (Some [])) None),
      (''fail'', UserHandler (\<lambda>ns. Inl (OtherException ''boom'')) None),
      (''deploy'', UserHandler (\<lambda>ns. Inl SystemExit) None)]"
  "name_parser_map (subparsers example_shell) =
     [(''help'', \<lparr>parser_prog = ''help'', parser_arguments = []\<rparr>),
      (''exit'', \<lparr>parser_prog = ''exit'', parser_arguments = []\<rparr>),
      (''grep'', \<lparr>parser_prog = ''grep'', parser_arguments = [(''pattern'', [(''help'', ''pattern'')])]\<rparr>),
      (''greet'', \<lparr>parser_prog = ''greet'', parser_arguments = [(''name'', [(''help'', ''who to greet'')])]\<rparr>),
      (''status'', \<lparr>parser_prog = ''status'', parser_arguments = []\<rparr>),
      (''fail'', \<lparr>parser_prog = ''fail'', parser_arguments = []\<rparr>),
      (''deploy'', \<lparr>parser_prog = ''deploy'', parser_arguments = []\<rparr>)]"
  "subparser_map example_shell = name_parser_map (subparsers example_shell)"
  "nested (completer example_shell) =
     [(''grep'', \<lparr>ac_argument_set = [(''pattern'', [(''help'', ''pattern'')])],
                  ac_value_completer = UserHandler (\<lambda>ns. Inr None) None\<rparr>),
      (''greet'', \<lparr>ac_argument_set = [(''name'', [(''help'', ''who to greet'')])],
                   ac_value_completer = UserHandler greet_handle (Some greet_completions)\<rparr>)]"
  "display_result_as_json example_shell = True"
  "description (completer example_shell) = nested (completer example_shell)"
  by (simp_all add: example_shell_def reg_simps ref_simps)

section \<open>Tokenisation\<close>

text \<open>
  C9 (as the code has it).  \<^verbatim>\<open>run\<close> strips the line and splits it at every single
  space character: no token contains a space, the tokens joined by single spaces are
  the stripped line again, there is one token more than there are spaces in the
  stripped line, and this token list is what \<^verbatim>\<open>parse_args\<close> receives.
\<close>

theorem C9_tokenize_splits_at_each_space:
  "CHR '' '' \<notin> set (concat (tokenize text))
   \<and> join_sep CHR '' '' (tokenize text) = strip text
   \<and> length (tokenize text) = Suc (length (filter (\<lambda>c. c = CHR '' '') (strip text)))
   \<and> run_step E sh (Some text) =
       (if strip text = [] then ([], Idle)
        else (case parse_args E (subparsers sh) (tokenize text) of
                ParserExit m \<Rightarrow> ([ParserMessage m], Idle)
              | Parsed ns \<Rightarrow> dispatch E sh ns
              | ParserHelp target \<Rightarrow> ([PrintHelp target], Idle)
              | ParserRaises e \<Rightarrow> if e = SystemExit then ([], Idle) else ([], Terminated e)))"
proof (intro conjI)
  show "CHR '' '' \<notin> set (concat (tokenize text))"
    unfolding tokenize_def by (rule split_sep_no_sep)
  show "join_sep CHR '' '' (tokenize text) = strip text"
    unfolding tokenize_def by (rule join_split_sep)
  show "length (tokenize text) = Suc (length (filter (\<lambda>c. c = CHR '' '') (strip text)))"
    unfolding tokenize_def by (rule length_split_sep)
  show "run_step E sh (Some text) =
       (if strip text = [] then ([], Idle)
        else (case parse_args E (subparsers sh) (tokenize text) of
                ParserExit m \<Rightarrow> ([ParserMessage m], Idle)
              | Parsed ns \<Rightarrow> dispatch E sh ns
              | ParserHelp target \<Rightarrow> ([PrintHelp target], Idle)
              | ParserRaises e \<Rightarrow> if e = SystemExit then ([], Idle) else ([], Terminated e)))"
    by (simp add: run_step_def)
qed

text \<open>
  C9 (as the specification states it) fails: two spaces in a row enclose an empty
  token, where whitespace tokenisation yields none, and a tab does not separate.
\<close>

theorem C9_counterexample:
  "tokenize ''greet  alice'' = [''greet'', [], ''alice'']
   \<and> split_whitespace ''greet  alice'' = [''greet'', ''alice'']
   \<and> tokenize [CHR ''a'', CHR 0x09, CHR ''b''] = [[CHR ''a'', CHR 0x09, CHR ''b'']]"
  by (simp add: tokenize_def strip_def lstrip_def rstrip_def is_space_def split_whitespace_def)

section \<open>Registration keeps the maps in step\<close>

lemma register_handler_same_names:
  "set (dict_keys (handler_map s)) = set (dict_keys (subparser_map s)) \<Longrightarrow>
   set (dict_keys (handler_map (snd (register_handler E name h a kw s)))) =
   set (dict_keys (subparser_map (snd (register_handler E name h a kw s))))"
  by (auto simp: register_handler_def Let_def set_dict_keys_dict_set
           split: sum.splits prod.splits option.splits)

lemma register_handler_keeps_handler:
  "k \<in> set (dict_keys (handler_map s)) \<Longrightarrow>
   k \<in> set (dict_keys (handler_map (snd (register_handler E name h a kw s))))"
  by (auto simp: register_handler_def Let_def set_dict_keys_dict_set
           split: sum.splits prod.splits option.splits)

lemma register_handler_keeps_parser:
  "k \<in> set (dict_keys (subparser_map s)) \<Longrightarrow>
   k \<in> set (dict_keys (subparser_map (snd (register_handler E name h a kw s))))"
  by (auto simp: register_handler_def Let_def set_dict_keys_dict_set
           split: sum.splits prod.splits option.splits)

lemma Shell_init_ok: "fst (Shell_init E j) = None"
  by (simp add: Shell_init_def register_builtin_handlers_def register_handler_def add_parser_def
        truthy_argument_set_def dict_keys_def Let_def split: prod.splits option.splits)

lemma Shell_init_maps:
  "dict_keys (handler_map (snd (Shell_init E j))) = [''help'', ''exit'']"
  "dict_keys (subparser_map (snd (Shell_init E j))) = [''help'', ''exit'']"
  "description (completer (snd (Shell_init E j))) = []"
  by (simp_all add: Shell_init_def register_builtin_handlers_def register_handler_def add_parser_def
        truthy_argument_set_def dict_keys_def Let_def ShellCompleter_init_def)

lemma register_all_same_names:
  "set (dict_keys (handler_map s)) = set (dict_keys (subparser_map s)) \<Longrightarrow>
   set (dict_keys (handler_map (register_all E rs s))) =
   set (dict_keys (subparser_map (register_all E rs s)))"
  unfolding register_all_def
proof (induction rs arbitrary: s)
  case Nil
  then show ?case by simp
next
  case (Cons r rs)
  obtain name h a kw where r: "r = (name, h, a, kw)" by (cases r)
  show ?case
    using Cons.IH [OF register_handler_same_names [OF Cons.prems, of E name h a kw]]
    by (simp add: r register_call_def)
qed

lemma register_all_keeps_handler:
  "k \<in> set (dict_keys (handler_map s)) \<Longrightarrow>
   k \<in> set (dict_keys (handler_map (register_all E rs s)))"
  unfolding register_all_def
proof (induction rs arbitrary: s)
  case Nil
  then show ?case by simp
next
  case (Cons r rs)
  obtain name h a kw where r: "r = (name, h, a, kw)" by (cases r)
  show ?case
    using Cons.IH [OF register_handler_keeps_handler [OF Cons.prems, of E name h a kw]]
    by (simp add: r register_call_def)
qed

lemma register_all_keeps_parser:
  "k \<in> set (dict_keys (subparser_map s)) \<Longrightarrow>
   k \<in> set (dict_keys (subparser_map (register_all E rs s)))"
  unfolding register_all_def
proof (induction rs arbitrary: s)
  case Nil
  then show ?case by simp
next
  case (Cons r rs)
  obtain name h a kw where r: "r = (name, h, a, kw)" by (cases r)
  show ?case
    using Cons.IH [OF register_handler_keeps_parser [OF Cons.prems, of E name h a kw]]
    by (simp add: r register_call_def)
qed

lemma Shell_init_bindings:
  "dict_get (handler_map (snd (Shell_init E j))) ''help'' = Some HelpAction"
  "dict_get (handler_map (snd (Shell_init E j))) ''exit'' = Some ExitAction"
  "dict_get (subparser_map (snd (Shell_init E j))) ''help'' =
     Some \<lparr>parser_prog = ''help'', parser_arguments = []\<rparr>"
  "dict_get (subparser_map (snd (Shell_init E j))) ''exit'' =
     Some \<lparr>parser_prog = ''exit'', parser_arguments = []\<rparr>"
  by (simp_all add: Shell_init_def register_builtin_handlers_def register_handler_def add_parser_def
        truthy_argument_set_def dict_keys_def dict_get_def Let_def ShellCompleter_init_def)

lemma register_handler_binds:
  "(case fst (register_handler E n h a kw s) of
      None \<Rightarrow>
        handler_map (snd (register_handler E n h a kw s)) = dict_set n h (handler_map s)
        \<and> dict_get (handler_map (snd (register_handler E n h a kw s))) n = Some h
        \<and> (\<exists>p. subparser_map (snd (register_handler E n h a kw s)) = dict_set n p (subparser_map s)
               \<and> dict_get (subparser_map (snd (register_handler E n h a kw s))) n = Some p
               \<and> dict_get (name_parser_map (subparsers (snd (register_handler E n h a kw s)))) n
                   = Some p)
    | Some e \<Rightarrow>
        handler_map (snd (register_handler E n h a kw s)) = handler_map s
        \<and> subparser_map (snd (register_handler E n h a kw s)) = subparser_map s)"
  by (auto simp: register_handler_def add_parser_def Let_def dict_get_dict_set dict_set_idem
           split: sum.splits prod.splits option.splits if_splits)

text \<open>
  C10.  \<^verbatim>\<open>Shell.__init__\<close> completes and binds \<^verbatim>\<open>help\<close> and \<^verbatim>\<open>exit\<close> to their
  handlers and parsers.  After it and after every further \<^verbatim>\<open>register_handler\<close>
  call, whether the call returned or raised, \<^verbatim>\<open>handler_map\<close> and \<^verbatim>\<open>subparser_map\<close>
  have the same set of keys, with \<^verbatim>\<open>help\<close> and \<^verbatim>\<open>exit\<close> among the keys of both.  A
  call that returns has bound its name to its handler in \<^verbatim>\<open>handler_map\<close> and to the
  parser argparse keeps for the name in \<^verbatim>\<open>subparser_map\<close>, and changed no other
  entry; a call that raises leaves both maps as they were.
\<close>

theorem C10_handler_and_parser_maps_in_step:
  "fst (Shell_init E j) = None
   \<and> set (dict_keys (handler_map (register_all E rs (snd (Shell_init E j))))) =
     set (dict_keys (subparser_map (register_all E rs (snd (Shell_init E j)))))
   \<and> ''help'' \<in> set (dict_keys (handler_map (register_all E rs (snd (Shell_init E j)))))
   \<and> ''exit'' \<in> set (dict_keys (handler_map (register_all E rs (snd (Shell_init E j)))))
   \<and> ''help'' \<in> set (dict_keys (subparser_map (register_all E rs (snd (Shell_init E j)))))
   \<and> ''exit'' \<in> set (dict_keys (subparser_map (register_all E rs (snd (Shell_init E j)))))
   \<and> dict_get (handler_map (snd (Shell_init E j))) ''help'' = Some HelpAction
   \<and> dict_get (handler_map (snd (Shell_init E j))) ''exit'' = Some ExitAction
   \<and> dict_get (subparser_map (snd (Shell_init E j))) ''help'' =
       Some \<lparr>parser_prog = ''help'', parser_arguments = []\<rparr>
   \<and> dict_get (subparser_map (snd (Shell_init E j))) ''exit'' =
       Some \<lparr>parser_prog = ''exit'', parser_arguments = []\<rparr>
   \<and> (case fst (register_handler E n h a kw s) of
         None \<Rightarrow>
           handler_map (snd (register_handler E n h a kw s)) = dict_set n h (handler_map s)
           \<and> dict_get (handler_map (snd (register_handler E n h a kw s))) n = Some h
           \<and> (\<exists>p. subparser_map (snd (register_handler E n h a kw s)) =
                     dict_set n p (subparser_map s)
                  \<and> dict_get (subparser_map (snd (register_handler E n h a kw s))) n = Some p
                  \<and> dict_get (name_parser_map (subparsers (snd (register_handler E n h a kw s)))) n
                      = Some p)
       | Some e \<Rightarrow>
           handler_map (snd (register_handler E n h a kw s)) = handler_map s
           \<and> subparser_map (snd (register_handler E n h a kw s)) = subparser_map s)"
proof (intro conjI)
  show "fst (Shell_init E j) = None" by (rule Shell_init_ok)
  show "set (dict_keys (handler_map (register_all E rs (snd (Shell_init E j))))) =
     set (dict_keys (subparser_map (register_all E rs (snd (Shell_init E j)))))"
    by (rule register_all_same_names) (simp add: Shell_init_maps)
  show "''help'' \<in> set (dict_keys (handler_map (register_all E rs (snd (Shell_init E j)))))"
    by (rule register_all_keeps_handler) (simp add: Shell_init_maps)
  show "''exit'' \<in> set (dict_keys (handler_map (register_all E rs (snd (Shell_init E j)))))"
    by (rule register_all_keeps_handler) (simp add: Shell_init_maps)
  show "''help'' \<in> set (dict_keys (subparser_map (register_all E rs (snd (Shell_init E j)))))"
    by (rule register_all_keeps_parser) (simp add: Shell_init_maps)
  show "''exit'' \<in> set (dict_keys (subparser_map (register_all E rs (snd (Shell_init E j)))))"
    by (rule register_all_keeps_parser) (simp add: Shell_init_maps)
  show "dict_get (handler_map (snd (Shell_init E j))) ''help'' = Some HelpAction"
    by (rule Shell_init_bindings)
  show "dict_get (handler_map (snd (Shell_init E j))) ''exit'' = Some ExitAction"
    by (rule Shell_init_bindings)
  show "dict_get (subparser_map (snd (Shell_init E j))) ''help'' =
       Some \<lparr>parser_prog = ''help'', parser_arguments = []\<rparr>"
    by (rule Shell_init_bindings)
  show "dict_get (subparser_map (snd (Shell_init E j))) ''exit'' =
       Some \<lparr>parser_prog = ''exit'', parser_arguments = []\<rparr>"
    by (rule Shell_init_bindings)
  show "(case fst (register_handler E n h a kw s) of
         None \<Rightarrow>
           handler_map (snd (register_handler E n h a kw s)) = dict_set n h (handler_map s)
           \<and> dict_get (handler_map (snd (register_handler E n h a kw s))) n = Some h
           \<and> (\<exists>p. subparser_map (snd (register_handler E n h a kw s)) =
                     dict_set n p (subparser_map s)
                  \<and> dict_get (subparser_map (snd (register_handler E n h a kw s))) n = Some p
                  \<and> dict_get (name_parser_map (subparsers (snd (register_handler E n h a kw s)))) n
                      = Some p)
       | Some e \<Rightarrow>
           handler_map (snd (register_handler E n h a kw s)) = handler_map s
           \<and> subparser_map (snd (register_handler E n h a kw s)) = subparser_map s)"
    by (rule register_handler_binds)
qed


section \<open>Registering twice\<close>

lemma add_completer_idem: "add_completer n ac (add_completer n ac c) = add_completer n ac c"
  by (simp add: add_completer_def Let_def dict_set_idem)

lemma register_twice_rejecting:
  assumes "argparse_rejects_duplicates E"
  shows "fst (register_handler E n h a kw (snd (register_handler E n h a kw s))) =
           Some (ArgumentError (''conflicting subparser: '' @ n))
         \<and> snd (register_handler E n h a kw (snd (register_handler E n h a kw s))) =
             snd (register_handler E n h a kw s)"
  using assms
  by (auto simp: register_handler_def add_parser_def Let_def set_dict_keys_dict_set
           split: sum.splits prod.splits option.splits if_splits)

lemma register_twice_replacing:
  assumes "\<not> argparse_rejects_duplicates E"
  shows "fst (register_handler E n h a kw (snd (register_handler E n h a kw s))) =
           fst (register_handler E n h a kw s)
         \<and> snd (register_handler E n h a kw (snd (register_handler E n h a kw s))) =
             (snd (register_handler E n h a kw s))
               \<lparr>subparsers := (subparsers (snd (register_handler E n h a kw s)))
                  \<lparr>choices_actions :=
                     choices_actions (subparsers (snd (register_handler E n h a kw s)))
                       @ [(n, dict_get kw ''help'')]\<rparr>\<rparr>"
  using assms
  by (auto simp: register_handler_def add_parser_def Let_def dict_set_idem add_completer_idem
           split: sum.splits prod.splits option.splits if_splits)

text \<open>
  C8 (as the code has it).  A second \<^verbatim>\<open>register_handler\<close> call with the name, handler,
  argument set and keyword arguments of the first leaves \<^verbatim>\<open>handler_map\<close>,
  \<^verbatim>\<open>subparser_map\<close>, the completer (description and nested index) and the parser of
  each name as the first call left them, and \<^verbatim>\<open>add_completer\<close> done twice with the
  same entry builds the index that doing it once builds.  The second call can be told
  from no call all the same: where argparse rejects duplicates it raises
  \<^verbatim>\<open>ArgumentError\<close> and changes nothing; where argparse replaces, it ends as the first
  call ended and changes nothing but the help listing of the subparsers, which gets one
  more entry for the name.
\<close>

theorem C8_register_twice_registry_and_index:
  "handler_map (snd (register_handler E n h a kw (snd (register_handler E n h a kw s)))) =
     handler_map (snd (register_handler E n h a kw s))
   \<and> subparser_map (snd (register_handler E n h a kw (snd (register_handler E n h a kw s)))) =
     subparser_map (snd (register_handler E n h a kw s))
   \<and> completer (snd (register_handler E n h a kw (snd (register_handler E n h a kw s)))) =
     completer (snd (register_handler E n h a kw s))
   \<and> name_parser_map (subparsers (snd (register_handler E n h a kw (snd (register_handler E n h a kw s))))) =
     name_parser_map (subparsers (snd (register_handler E n h a kw s)))
   \<and> add_completer n ac (add_completer n ac c) = add_completer n ac c
   \<and> (if argparse_rejects_duplicates E
       then fst (register_handler E n h a kw (snd (register_handler E n h a kw s))) =
              Some (ArgumentError (''conflicting subparser: '' @ n))
            \<and> snd (register_handler E n h a kw (snd (register_handler E n h a kw s))) =
                snd (register_handler E n h a kw s)
       else fst (register_handler E n h a kw (snd (register_handler E n h a kw s))) =
              fst (register_handler E n h a kw s)
            \<and> snd (register_handler E n h a kw (snd (register_handler E n h a kw s))) =
                (snd (register_handler E n h a kw s))
                  \<lparr>subparsers := (subparsers (snd (register_handler E n h a kw s)))
                     \<lparr>choices_actions :=
                        choices_actions (subparsers (snd (register_handler E n h a kw s)))
                          @ [(n, dict_get kw ''help'')]\<rparr>\<rparr>)"
proof (cases "argparse_rejects_duplicates E")
  case True
  show ?thesis
    using True register_twice_rejecting [OF True, of n h a kw s]
    by (simp add: add_completer_idem)
next
  case False
  have twice: "snd (register_handler E n h a kw (snd (register_handler E n h a kw s))) =
                (snd (register_handler E n h a kw s))
                  \<lparr>subparsers := (subparsers (snd (register_handler E n h a kw s)))
                     \<lparr>choices_actions :=
                        choices_actions (subparsers (snd (register_handler E n h a kw s)))
                          @ [(n, dict_get kw ''help'')]\<rparr>\<rparr>"
    and same: "fst (register_handler E n h a kw (snd (register_handler E n h a kw s))) =
              fst (register_handler E n h a kw s)"
    using register_twice_replacing [OF False, of n h a kw s] by simp_all
  have "handler_map (snd (register_handler E n h a kw (snd (register_handler E n h a kw s)))) =
          handler_map (snd (register_handler E n h a kw s))"
    and "subparser_map (snd (register_handler E n h a kw (snd (register_handler E n h a kw s)))) =
          subparser_map (snd (register_handler E n h a kw s))"
    and "completer (snd (register_handler E n h a kw (snd (register_handler E n h a kw s)))) =
          completer (snd (register_handler E n h a kw s))"
    and "name_parser_map (subparsers (snd (register_handler E n h a kw (snd (register_handler E n h a kw s))))) =
          name_parser_map (subparsers (snd (register_handler E n h a kw s)))"
    by (simp_all add: twice)
  then show ?thesis
    using False twice same by (simp add: add_completer_idem)
qed

text \<open>
  C8 (as the specification states it) fails.  In the reference environment the first
  registration of \<^verbatim>\<open>greet\<close> returns and the second, with the same arguments, raises
  \<^verbatim>\<open>ArgumentError\<close>; on a Python before 3.11 both return, and the help listing of the
  subparsers names \<^verbatim>\<open>greet\<close> once after one registration and twice after two.
\<close>

theorem C8_counterexample:
  "fst (register_handler ref_env ''greet'' (UserHandler greet_handle (Some greet_completions))
          (Some [(''name'', [(''help'', ''who to greet'')])]) [(''help'', KwStr ''Greet'')]
          (snd (Shell_init ref_env True))) = None
   \<and> fst (register_handler ref_env ''greet'' (UserHandler greet_handle (Some greet_completions))
          (Some [(''name'', [(''help'', ''who to greet'')])]) [(''help'', KwStr ''Greet'')]
          (snd (register_handler ref_env ''greet''
                  (UserHandler greet_handle (Some greet_completions))
                  (Some [(''name'', [(''help'', ''who to greet'')])]) [(''help'', KwStr ''Greet'')]
                  (snd (Shell_init ref_env True))))) =
       Some (ArgumentError ''conflicting subparser: greet'')
   \<and> map fst (choices_actions (subparsers
         (snd (register_handler legacy_env ''greet''
                 (UserHandler greet_handle (Some greet_completions))
                 (Some [(''name'', [(''help'', ''who to greet'')])]) [(''help'', KwStr ''Greet'')]
                 (snd (Shell_init legacy_env True)))))) = [''help'', ''exit'', ''greet'']
   \<and> map fst (choices_actions (subparsers
         (snd (register_handler legacy_env ''greet''
                 (UserHandler greet_handle (Some greet_completions))
                 (Some [(''name'', [(''help'', ''who to greet'')])]) [(''help'', KwStr ''Greet'')]
                 (snd (register_handler legacy_env ''greet''
                         (UserHandler greet_handle (Some greet_completions))
                         (Some [(''name'', [(''help'', ''who to greet'')])])
                         [(''help'', KwStr ''Greet'')]
                         (snd (Shell_init legacy_env True)))))))) =
       [''help'', ''exit'', ''greet'', ''greet'']"
  by (simp add: reg_simps ref_simps legacy_env_def)


section \<open>Results of handlers\<close>

lemma invocations_append: "invocations (xs @ ys) = invocations xs @ invocations ys"
  by (induction xs rule: invocations.induct) simp_all

lemma invocations_handle: "invocations (fst (handle sh h ns)) = []"
  by (cases h) (auto split: option.splits argval.splits)

text \<open>
  C7 (as the code has it).  When the handler of the dispatched command returns, the
  iteration consists of the call, of what the handler printed itself, and of this:
  for a non-empty dictionary, the payload as returned is handed once to the
  presentation layer, and should that raise, \<^verbatim>\<open>command error:\<close> is printed after it;
  for \<^verbatim>\<open>None\<close> or an empty dictionary (\<^verbatim>\<open>if result:\<close>) nothing is handed over and
  nothing is printed.  The loop is at the prompt again in each case.
\<close>

theorem C7_payload_handed_to_presentation_unchanged:
  assumes "ns_command ns = Some c"
    and "dict_get (handler_map sh) c = Some h"
    and "handle sh h ns = (evs, Inr res)"
  shows "dispatch E sh ns =
           (Invoke c ns # evs @
              (case res of
                 None \<Rightarrow> []
               | Some r \<Rightarrow>
                   if r = [] then []
                   else Present (display_result_as_json sh) r #
                          (case present_error E (display_result_as_json sh) r of
                             None \<Rightarrow> []
                           | Some m \<Rightarrow> [PrintCommandError (TypeError m)])),
            Idle)"
  using assms by (auto simp: dispatch_def split: option.splits)

text \<open>C7 on \<^verbatim>\<open>greet alice\<close>: the greeting is handed over as returned.\<close>

theorem C7_witness:
  "dispatch ref_env example_shell
     \<lparr>ns_command = Some ''greet'', ns_attrs = [(''name'', VStr ''alice'')]\<rparr> =
   ([Invoke ''greet'' \<lparr>ns_command = Some ''greet'', ns_attrs = [(''name'', VStr ''alice'')]\<rparr>,
     Present True [(''greeting'', ''hello alice'')]], Idle)"
  using C7_payload_handed_to_presentation_unchanged
    [of "\<lparr>ns_command = Some ''greet'', ns_attrs = [(''name'', VStr ''alice'')]\<rparr>" "''greet''"
        example_shell "UserHandler greet_handle (Some greet_completions)" "[]"
        "Some [(''greeting'', ''hello alice'')]" ref_env]
  by (simp add: example_shell_eval dict_get_def greet_handle_def ref_env_def)

text \<open>C7 (as the specification states it) fails: the handler of \<^verbatim>\<open>status\<close> returns
  a payload, the empty dictionary, and nothing is handed to the presentation layer.\<close>

theorem C7_counterexample:
  "run_step ref_env example_shell (Some ''status'') =
     ([Invoke ''status'' \<lparr>ns_command = Some ''status'', ns_attrs = []\<rparr>], Idle)
   \<and> snd (handle example_shell (UserHandler (\<lambda>ns. Inr (Some [])) None)
            \<lparr>ns_command = Some ''status'', ns_attrs = []\<rparr>) = Inr (Some [])"
  by (simp add: line_simps example_shell_eval ref_simps)


section \<open>Exceptions of handlers\<close>

lemma run_Cons_Idle:
  "run_step E sh input = (evs, Idle) \<Longrightarrow>
   run E sh (input # inputs) = (evs @ fst (run E sh inputs), snd (run E sh inputs))"
  by (simp split: prod.splits)

text \<open>
  C2 (as the code has it).  When the handler of the dispatched command raises an
  exception that derives from \<^verbatim>\<open>Exception\<close>, the iteration prints
  \<^verbatim>\<open>command error:\<close> with it and ends at the prompt, and the lines that follow are
  processed as they would have been without the failing line.
\<close>

theorem C2_Exception_of_handler_is_caught:
  assumes "strip text \<noteq> []"
    and "parse_args E (subparsers sh) (tokenize text) = Parsed ns"
    and "ns_command ns = Some c"
    and "dict_get (handler_map sh) c = Some h"
    and "handle sh h ns = (evs, Inl e)"
    and "is_Exception e"
  shows "run_step E sh (Some text) = (Invoke c ns # evs @ [PrintCommandError e], Idle)
         \<and> run E sh (Some text # inputs) =
             ((Invoke c ns # evs @ [PrintCommandError e]) @ fst (run E sh inputs),
              snd (run E sh inputs))"
proof -
  have step: "run_step E sh (Some text) = (Invoke c ns # evs @ [PrintCommandError e], Idle)"
    using assms by (simp add: run_step_def dispatch_def)
  show ?thesis
    using step run_Cons_Idle [OF step, of inputs] by simp
qed

text \<open>C2 on the session \<^verbatim>\<open>fail\<close>, \<^verbatim>\<open>greet alice\<close>.\<close>

theorem C2_witness:
  "run ref_env example_shell [Some ''fail'', Some ''greet alice''] =
     ([Invoke ''fail'' \<lparr>ns_command = Some ''fail'', ns_attrs = []\<rparr>,
       PrintCommandError (OtherException ''boom''),
       Invoke ''greet'' \<lparr>ns_command = Some ''greet'', ns_attrs = [(''name'', VStr ''alice'')]\<rparr>,
       Present True [(''greeting'', ''hello alice'')]],
      Idle)"
proof -
  have later: "run ref_env example_shell [Some ''greet alice''] =
     ([Invoke ''greet'' \<lparr>ns_command = Some ''greet'', ns_attrs = [(''name'', VStr ''alice'')]\<rparr>,
       Present True [(''greeting'', ''hello alice'')]], Idle)"
    by (simp add: line_simps example_shell_eval ref_simps greet_handle_def)
  show ?thesis
    using C2_Exception_of_handler_is_caught
      [of "''fail''" ref_env example_shell "\<lparr>ns_command = Some ''fail'', ns_attrs = []\<rparr>"
          "''fail''" "UserHandler (\<lambda>ns. Inl (OtherException ''boom'')) None" "[]"
          "OtherException ''boom''" "[Some ''greet alice'']"]
    by (simp add: later line_simps example_shell_eval ref_simps greet_handle_def)
qed

text \<open>C2 (as the specification states it) fails: the \<^verbatim>\<open>SystemExit\<close> that the handler
  of \<^verbatim>\<open>exit\<close> raises inside \<^verbatim>\<open>handle\<close> is not caught by \<^verbatim>\<open>except Exception\<close>; it
  leaves \<^verbatim>\<open>run\<close>, and the next line is not dispatched.\<close>

theorem C2_counterexample:
  "run ref_env example_shell [Some ''exit'', Some ''greet alice''] =
     ([Invoke ''exit'' \<lparr>ns_command = Some ''exit'', ns_attrs = []\<rparr>], Terminated SystemExit)
   \<and> handle example_shell ExitAction \<lparr>ns_command = Some ''exit'', ns_attrs = []\<rparr> =
       ([], Inl SystemExit)"
  by (simp add: line_simps example_shell_eval ref_simps)

section \<open>Unknown commands\<close>

lemma dict_get_None_iff: "dict_get d k = None \<longleftrightarrow> k \<notin> set (dict_keys d)"
  by (simp add: dict_get_def dict_keys_def map_of_eq_None_iff)

lemma register_handler_names_known:
  "set (dict_keys (handler_map s)) \<subseteq> set (dict_keys (name_parser_map (subparsers s))) \<Longrightarrow>
   set (dict_keys (handler_map (snd (register_handler E n h a kw s)))) \<subseteq>
   set (dict_keys (name_parser_map (subparsers (snd (register_handler E n h a kw s)))))"
  by (auto simp: register_handler_def add_parser_def Let_def set_dict_keys_dict_set
           split: sum.splits prod.splits option.splits if_splits)

lemma register_all_names_known:
  "set (dict_keys (handler_map s)) \<subseteq> set (dict_keys (name_parser_map (subparsers s))) \<Longrightarrow>
   set (dict_keys (handler_map (register_all E rs s))) \<subseteq>
   set (dict_keys (name_parser_map (subparsers (register_all E rs s))))"
  unfolding register_all_def
proof (induction rs arbitrary: s)
  case Nil
  then show ?case by simp
next
  case (Cons r rs)
  obtain n h a kw where r: "r = (n, h, a, kw)" by (cases r)
  show ?case
    using Cons.IH [OF register_handler_names_known [OF Cons.prems, of E n h a kw]]
    by (simp add: r register_call_def)
qed

lemma Shell_init_names_known:
  "set (dict_keys (handler_map (snd (Shell_init E j)))) \<subseteq>
   set (dict_keys (name_parser_map (subparsers (snd (Shell_init E j)))))"
  by (simp add: reg_simps)

lemma ref_parse_args_invalid_choice:
  assumes "toks \<noteq> []"
    and "hd toks \<notin> set (dict_keys (name_parser_map sp))"
    and "\<not> option_like (hd toks)"
  shows "ref_parse_args sp toks = ParserExit (invalid_choice_message (hd toks))"
proof -
  obtain t ts where toks: "toks = t # ts"
    using assms(1) by (cases toks) auto
  have "dict_get (name_parser_map sp) t = None"
    using assms(2) by (simp add: toks dict_get_None_iff)
  moreover have "t \<noteq> ''-h''" "t \<noteq> ''--help''"
    using assms(3) by (auto simp: toks option_like_def)
  ultimately show ?thesis
    by (simp add: toks ref_parse_args_def ref_parse_args_config_def)
qed

text \<open>
  C3 (as the code has it).  Let the parser answer a first token that is not an option
  and names no subcommand with the error \<^verbatim>\<open>invalid choice\<close>, as argparse does unless
  configured otherwise.  In the shell that a sequence of registrations has built, a
  line whose first token does not start with \<^verbatim>\<open>-\<close> and names no parser is not a
  registered command either; it calls no handler, the error of the parser is all that
  is reported, and the loop is at the prompt again and goes on with the next lines.
\<close>

theorem C3_unknown_first_token_reported:
  assumes contract:
      "\<And>sp toks. toks \<noteq> [] \<Longrightarrow> hd toks \<notin> set (dict_keys (name_parser_map sp))
         \<Longrightarrow> \<not> option_like (hd toks)
         \<Longrightarrow> parse_args E sp toks = ParserExit (invalid_choice_message (hd toks))"
    and s: "s = register_all E rs (snd (Shell_init E j))"
    and nonblank: "strip text \<noteq> []"
    and no_option: "\<not> option_like (hd (tokenize text))"
    and unknown: "hd (tokenize text) \<notin> set (dict_keys (name_parser_map (subparsers s)))"
  shows "hd (tokenize text) \<notin> set (dict_keys (handler_map s))
         \<and> run_step E s (Some text) =
             ([ParserMessage (invalid_choice_message (hd (tokenize text)))], Idle)
         \<and> run E s (Some text # inputs) =
             (ParserMessage (invalid_choice_message (hd (tokenize text))) # fst (run E s inputs),
              snd (run E s inputs))"
proof -
  have known: "set (dict_keys (handler_map s)) \<subseteq> set (dict_keys (name_parser_map (subparsers s)))"
    unfolding s by (rule register_all_names_known) (rule Shell_init_names_known)
  have toks: "tokenize text \<noteq> []"
    by (simp add: tokenize_def split_sep_not_Nil)
  have parse: "parse_args E (subparsers s) (tokenize text) =
                 ParserExit (invalid_choice_message (hd (tokenize text)))"
    by (rule contract [OF toks unknown no_option])
  have step: "run_step E s (Some text) =
             ([ParserMessage (invalid_choice_message (hd (tokenize text)))], Idle)"
    using nonblank parse by (simp add: run_step_def)
  show ?thesis
    using known unknown step run_Cons_Idle [OF step, of inputs] by auto
qed

text \<open>C3 on the line \<^verbatim>\<open>unknown\<close> in the example session.\<close>

theorem C3_witness:
  "run_step ref_env example_shell (Some ''unknown'') =
     ([ParserMessage (invalid_choice_message ''unknown'')], Idle)"
proof -
  have contract: "\<And>sp toks. toks \<noteq> [] \<Longrightarrow> hd toks \<notin> set (dict_keys (name_parser_map sp))
         \<Longrightarrow> \<not> option_like (hd toks)
         \<Longrightarrow> parse_args ref_env sp toks = ParserExit (invalid_choice_message (hd toks))"
    using ref_parse_args_invalid_choice by (simp add: ref_env_def)
  have s: "example_shell = register_all ref_env example_registrations (snd (Shell_init ref_env True))"
    by (simp add: example_shell_def)
  have tok: "tokenize ''unknown'' = [''unknown'']"
    by (simp add: tokenize_def strip_def lstrip_def rstrip_def is_space_def)
  have nonblank: "strip ''unknown'' \<noteq> []"
    by (simp add: strip_def lstrip_def rstrip_def is_space_def)
  have no_option: "\<not> option_like (hd (tokenize ''unknown''))"
    by (simp add: tok option_like_def)
  have unknown: "hd (tokenize ''unknown'') \<notin> set (dict_keys (name_parser_map (subparsers example_shell)))"
    by (simp add: tok example_shell_eval dict_keys_def)
  show ?thesis
    using C3_unknown_first_token_reported [OF contract s nonblank no_option unknown] tok
    by simp
qed

text \<open>
  C3 (as the specification states it) fails.  The first token \<^verbatim>\<open>-h\<close> is no
  registered command, and the parser prints its help: no error is reported.  With a
  parser configured with \<^verbatim>\<open>exit_on_error=False\<close> the line \<^verbatim>\<open>unknown\<close> raises
  \<^verbatim>\<open>ArgumentError\<close>, which \<^verbatim>\<open>except SystemExit\<close> does not catch: nothing is reported
  and the loop ends.
\<close>

theorem C3_counterexample:
  "run_step ref_env example_shell (Some ''-h'') = ([PrintHelp None], Idle)
   \<and> ''-h'' \<notin> set (dict_keys (handler_map example_shell))
   \<and> run_step no_exit_env example_shell (Some ''unknown'') =
       ([], Terminated (ArgumentError ''invalid choice: unknown''))
   \<and> ''unknown'' \<notin> set (dict_keys (handler_map example_shell))"
  by (simp add: line_simps example_shell_eval ref_simps no_exit_env_def dict_keys_def)


section \<open>Termination of the loop\<close>








section \<open>Dispatch of a parsed line\<close>

text \<open>A line the parser resolves to a registered command calls the handler of that
  command once, with the namespace the parser returned, and no other handler.\<close>

lemma parsed_line_invokes_handler_once:
  assumes "strip text \<noteq> []"
    and "parse_args E (subparsers sh) (tokenize text) = Parsed ns"
    and "ns_command ns = Some c"
    and "dict_get (handler_map sh) c = Some h"
  shows "invocations (fst (run_step E sh (Some text))) = [(c, ns)]"
  using assms invocations_handle [of sh h ns]
  by (auto simp: run_step_def dispatch_def invocations_append
           split: prod.splits sum.splits option.splits)

text \<open>
  C1, at the built-in command \<^verbatim>\<open>help\<close>.  \<^verbatim>\<open>register_builtin_handlers\<close> passes
  \<^verbatim>\<open>HelpAction.ARG_SPEC\<close> under the keyword \<^verbatim>\<open>arguments\<close>, so in every environment
  the parser of \<^verbatim>\<open>help\<close> is left without arguments.  In the reference environment
  the line \<^verbatim>\<open>help exit\<close>, which satisfies the specification of \<^verbatim>\<open>help\<close>, is
  rejected by the parser and no handler is called; the line \<^verbatim>\<open>help\<close> calls the
  handler, which fails on the missing attribute \<^verbatim>\<open>action\<close>.
\<close>

theorem C1_help_argument_spec_not_installed:
  "dict_get (subparser_map (snd (Shell_init E j))) ''help'' =
     Some \<lparr>parser_prog = ''help'', parser_arguments = []\<rparr>
   \<and> dict_get (name_parser_map (subparsers (snd (Shell_init E j)))) ''help'' =
     Some \<lparr>parser_prog = ''help'', parser_arguments = []\<rparr>
   \<and> HelpAction_ARG_SPEC \<noteq> []
   \<and> run_step ref_env (snd (Shell_init ref_env True)) (Some ''help exit'') =
       ([ParserMessage ''usage: help''], Idle)
   \<and> run_step ref_env (snd (Shell_init ref_env True)) (Some ''help'') =
       ([Invoke ''help'' \<lparr>ns_command = Some ''help'', ns_attrs = []\<rparr>,
         PrintCommandError (AttributeError ''action'')], Idle)"
proof (intro conjI)
  show "dict_get (subparser_map (snd (Shell_init E j))) ''help'' =
     Some \<lparr>parser_prog = ''help'', parser_arguments = []\<rparr>"
    by (simp add: reg_simps)
  show "dict_get (name_parser_map (subparsers (snd (Shell_init E j)))) ''help'' =
     Some \<lparr>parser_prog = ''help'', parser_arguments = []\<rparr>"
    by (simp add: reg_simps)
  show "HelpAction_ARG_SPEC \<noteq> []"
    by (simp add: HelpAction_ARG_SPEC_def)
  show "run_step ref_env (snd (Shell_init ref_env True)) (Some ''help exit'') =
       ([ParserMessage ''usage: help''], Idle)"
    by (simp only: fresh_shell_eval) (simp add: line_simps ref_simps)
  show "run_step ref_env (snd (Shell_init ref_env True)) (Some ''help'') =
       ([Invoke ''help'' \<lparr>ns_command = Some ''help'', ns_attrs = []\<rparr>,
         PrintCommandError (AttributeError ''action'')], Idle)"
    by (simp only: fresh_shell_eval) (simp add: line_simps ref_simps)
qed

section \<open>Completion queries that raise\<close>

text \<open>
  C6, at a handler that does not override \<^verbatim>\<open>get_completions\<close>.  The inherited
  method raises \<^verbatim>\<open>StopIteration\<close> and the proxy \<^verbatim>\<open>HandlerValueCompleter\<close> passes it
  on; with an \<^verbatim>\<open>ArgumentCompleter\<close> that delegates to its value completer, the query
  for \<^verbatim>\<open>grep a\<close> in the example session raises instead of yielding no candidate.
\<close>

theorem C6_inherited_get_completions_raises:
  "HandlerValueCompleter_get_completions sh (UserHandler f None) ctx = Inl StopIteration
   \<and> HandlerValueCompleter_get_completions sh ExitAction ctx = Inl StopIteration
   \<and> ShellCompleter_get_completions ref_env example_shell ''grep a'' =
       Inl (RuntimeError ''generator raised StopIteration'')"
  by (simp add: completion_simps example_shell_eval ref_simps)

section \<open>Completion of command names\<close>

text \<open>
  C4 (as the specification states it) fails in the example session: for \<^verbatim>\<open>gre\<close>
  the candidates come in the order of registration, \<^verbatim>\<open>grep\<close> before \<^verbatim>\<open>greet\<close>; for
  \<^verbatim>\<open>GRE\<close> they are the same two, the comparison ignoring case; and for \<^verbatim>\<open>ex\<close> there
  is no candidate although \<^verbatim>\<open>exit\<close> is registered.
\<close>

theorem C4_counterexample:
  "ShellCompleter_get_completions ref_env example_shell ''gre'' = Inr [''grep'', ''greet'']
   \<and> ShellCompleter_get_completions ref_env example_shell ''GRE'' = Inr [''grep'', ''greet'']
   \<and> ShellCompleter_get_completions ref_env example_shell ''ex'' = Inr []
   \<and> ''exit'' \<in> set (dict_keys (handler_map example_shell))"
  by (simp add: completion_simps example_shell_eval ref_simps)


lemma add_completer_ok:
  assumes "distinct (dict_keys (description c))"
  shows "distinct (dict_keys (description (add_completer n ac c)))
         \<and> nested (add_completer n ac c) = description (add_completer n ac c)"
  using assms distinct_dict_set [of "description c" n ac]
  by (simp add: add_completer_def Let_def from_nested_dict_distinct)

lemma register_handler_completer_ok:
  assumes "distinct (dict_keys (description (completer s)))"
    and "nested (completer s) = description (completer s)"
  shows "distinct (dict_keys (description (completer (snd (register_handler E n h a kw s)))))
         \<and> nested (completer (snd (register_handler E n h a kw s))) =
             description (completer (snd (register_handler E n h a kw s)))"
  using assms add_completer_ok [OF assms(1)]
  by (auto simp: register_handler_def Let_def split: sum.splits prod.splits option.splits)

lemma register_all_snoc:
  "register_all E (rs @ [(n, h, a, kw)]) s = snd (register_handler E n h a kw (register_all E rs s))"
  by (simp add: register_all_def register_call_def)

lemma register_all_completer_ok:
  assumes "distinct (dict_keys (description (completer s)))"
    and "nested (completer s) = description (completer s)"
  shows "distinct (dict_keys (description (completer (register_all E rs s))))
         \<and> nested (completer (register_all E rs s)) = description (completer (register_all E rs s))"
proof (induction rs rule: rev_induct)
  case Nil
  show ?case using assms by (simp add: register_all_def)
next
  case (snoc r rs)
  obtain n h a kw where r: "r = (n, h, a, kw)" by (cases r)
  show ?case
    using register_handler_completer_ok [of "register_all E rs s" E n h a kw] snoc
    by (simp add: r register_all_snoc)
qed

lemma Shell_init_completer: "completer (snd (Shell_init E j)) = \<lparr>description = [], nested = []\<rparr>"
  by (simp add: reg_simps)

lemma register_handler_description_keys:
  "dict_keys (description (completer (snd (register_handler E n h a kw s)))) =
     dict_keys (description (completer s)) @
       (if truthy_argument_set a \<and> fst (register_handler E n h a kw s) = None
           \<and> n \<notin> set (dict_keys (description (completer s)))
        then [n] else [])"
  by (auto simp: register_handler_def Let_def add_completer_def dict_keys_dict_set
           split: sum.splits prod.splits option.splits)

lemma snoc_eq_split:
  "(rs @ [r] = rs1 @ x # rs2) =
     ((rs2 = [] \<and> rs = rs1 \<and> r = x) \<or> (\<exists>rs2'. rs2 = rs2' @ [r] \<and> rs = rs1 @ x # rs2'))"
  by (cases rs2 rule: rev_cases) auto

lemma register_all_description_names:
  assumes "description (completer s) = []"
  shows "set (dict_keys (description (completer (register_all E rs s)))) =
         {n. \<exists>rs1 h a kw rs2. rs = rs1 @ (n, h, a, kw) # rs2 \<and> truthy_argument_set a
               \<and> fst (register_handler E n h a kw (register_all E rs1 s)) = None}"
proof (induction rs rule: rev_induct)
  case Nil
  show ?case using assms by (simp add: register_all_def dict_keys_def)
next
  case (snoc r rs)
  obtain n0 h0 a0 kw0 where r: "r = (n0, h0, a0, kw0)" by (cases r)
  let ?ok = "truthy_argument_set a0
             \<and> fst (register_handler E n0 h0 a0 kw0 (register_all E rs s)) = None"
  have keys: "set (dict_keys (description (completer (register_all E (rs @ [r]) s)))) =
              set (dict_keys (description (completer (register_all E rs s))))
                \<union> (if ?ok then {n0} else {})"
    unfolding r register_all_snoc register_handler_description_keys by auto
  have names: "(\<exists>rs1 h a kw rs2. rs @ [r] = rs1 @ (n, h, a, kw) # rs2 \<and> truthy_argument_set a
                 \<and> fst (register_handler E n h a kw (register_all E rs1 s)) = None)
             = ((\<exists>rs1 h a kw rs2. rs = rs1 @ (n, h, a, kw) # rs2 \<and> truthy_argument_set a
                 \<and> fst (register_handler E n h a kw (register_all E rs1 s)) = None)
                \<or> (n = n0 \<and> ?ok))" for n
  proof
    assume "\<exists>rs1 h a kw rs2. rs @ [r] = rs1 @ (n, h, a, kw) # rs2 \<and> truthy_argument_set a
                 \<and> fst (register_handler E n h a kw (register_all E rs1 s)) = None"
    then obtain rs1 h a kw rs2 where eq: "rs @ [r] = rs1 @ (n, h, a, kw) # rs2"
      and ok: "truthy_argument_set a"
        "fst (register_handler E n h a kw (register_all E rs1 s)) = None"
      by blast
    from eq consider "rs2 = []" "rs = rs1" "r = (n, h, a, kw)"
      | rs2' where "rs2 = rs2' @ [r]" "rs = rs1 @ (n, h, a, kw) # rs2'"
      unfolding snoc_eq_split by blast
    then show "(\<exists>rs1 h a kw rs2. rs = rs1 @ (n, h, a, kw) # rs2 \<and> truthy_argument_set a
                 \<and> fst (register_handler E n h a kw (register_all E rs1 s)) = None)
                \<or> (n = n0 \<and> ?ok)"
    proof cases
      case 1
      with ok r show ?thesis by simp
    next
      case 2
      with ok show ?thesis by blast
    qed
  next
    assume "(\<exists>rs1 h a kw rs2. rs = rs1 @ (n, h, a, kw) # rs2 \<and> truthy_argument_set a
                 \<and> fst (register_handler E n h a kw (register_all E rs1 s)) = None)
                \<or> (n = n0 \<and> ?ok)"
    then show "\<exists>rs1 h a kw rs2. rs @ [r] = rs1 @ (n, h, a, kw) # rs2 \<and> truthy_argument_set a
                 \<and> fst (register_handler E n h a kw (register_all E rs1 s)) = None"
    proof
      assume "\<exists>rs1 h a kw rs2. rs = rs1 @ (n, h, a, kw) # rs2 \<and> truthy_argument_set a
                 \<and> fst (register_handler E n h a kw (register_all E rs1 s)) = None"
      then obtain rs1 h a kw rs2 where "rs = rs1 @ (n, h, a, kw) # rs2"
        "truthy_argument_set a" "fst (register_handler E n h a kw (register_all E rs1 s)) = None"
        by blast
      then have "rs @ [r] = rs1 @ (n, h, a, kw) # (rs2 @ [r]) \<and> truthy_argument_set a
                 \<and> fst (register_handler E n h a kw (register_all E rs1 s)) = None"
        by simp
      then show ?thesis by blast
    next
      assume "n = n0 \<and> ?ok"
      then have "rs @ [r] = rs @ (n, h0, a0, kw0) # [] \<and> truthy_argument_set a0
                 \<and> fst (register_handler E n h0 a0 kw0 (register_all E rs s)) = None"
        by (simp add: r)
      then show ?thesis by blast
    qed
  qed
  define P where "P = (\<lambda>rs n. \<exists>rs1 h a kw rs2. rs = rs1 @ (n, h, a, kw) # rs2
                 \<and> truthy_argument_set a
                 \<and> fst (register_handler E n h a kw (register_all E rs1 s)) = None)"
  have IH: "set (dict_keys (description (completer (register_all E rs s)))) = {n. P rs n}"
    using snoc.IH by (simp add: P_def)
  have step: "P (rs @ [r]) n = (P rs n \<or> (n = n0 \<and> ?ok))" for n
    using names [of n] by (simp add: P_def)
  have "set (dict_keys (description (completer (register_all E (rs @ [r]) s)))) =
          {n. P (rs @ [r]) n}"
    using keys IH step by auto
  then show ?case by (simp add: P_def)
qed

lemma is_word_char_not_space: "is_word_char c \<Longrightarrow> \<not> is_space c"
  by (auto simp: is_word_char_def is_space_def Let_def)

lemma get_word_before_cursor_word:
  "list_all is_word_char text \<Longrightarrow> get_word_before_cursor text = text"
proof (cases "text = []")
  case True
  then show ?thesis by (simp add: get_word_before_cursor_def)
next
  case False
  assume all: "list_all is_word_char text"
  have last: "is_word_char (last text)"
    using all False by (simp add: list_all_iff)
  have tw: "takeWhile is_word_char (rev text) = rev text"
    using all by (simp add: list_all_iff)
  show ?thesis
    using False last is_word_char_not_space [OF last]
    by (simp add: get_word_before_cursor_def tw)
qed

text \<open>
  C4 (as the code has it).  In the shell that a sequence of registrations has built,
  for a text before the cursor that has no space after its leading whitespace, the
  candidates are the keys of the description of the completer that, in lower case,
  start with the word before the cursor in lower case, in the order of the
  description; the word before the cursor is the text itself when that is made of word
  characters.  The keys are distinct, they are exactly the names of the
  \<^verbatim>\<open>register_handler\<close> calls that had a non-empty \<^verbatim>\<open>argument_set\<close> and returned, and
  a further call appends its name to them or leaves them as they are: the order is
  that of first registration.
\<close>

theorem C4_names_with_arguments_in_registration_order:
  assumes s: "s = register_all E rs (snd (Shell_init E j))"
    and one_token: "CHR '' '' \<notin> set (lstrip text)"
  shows "ShellCompleter_get_completions E s text =
           Inr (filter (\<lambda>name. prefix (lower (get_word_before_cursor text)) (lower name))
                  (dict_keys (description (completer s))))
         \<and> (list_all is_word_char text \<longrightarrow> get_word_before_cursor text = text)
         \<and> distinct (dict_keys (description (completer s)))
         \<and> set (dict_keys (description (completer s))) =
             {n. \<exists>rs1 h a kw rs2. rs = rs1 @ (n, h, a, kw) # rs2 \<and> truthy_argument_set a
                   \<and> fst (register_handler E n h a kw
                            (register_all E rs1 (snd (Shell_init E j)))) = None}
         \<and> dict_keys (description (completer (snd (register_handler E n' h' a' kw' s)))) =
             dict_keys (description (completer s)) @
               (if truthy_argument_set a' \<and> fst (register_handler E n' h' a' kw' s) = None
                   \<and> n' \<notin> set (dict_keys (description (completer s)))
                then [n'] else [])"
proof -
  have init: "description (completer (snd (Shell_init E j))) = []"
    "nested (completer (snd (Shell_init E j))) = description (completer (snd (Shell_init E j)))"
    "distinct (dict_keys (description (completer (snd (Shell_init E j)))))"
    by (simp_all add: Shell_init_completer dict_keys_def)
  have ok: "distinct (dict_keys (description (completer s)))"
    "nested (completer s) = description (completer s)"
    using register_all_completer_ok [OF init(3) init(2), of E rs] by (simp_all add: s)
  have query: "ShellCompleter_get_completions E s text =
           Inr (filter (\<lambda>name. prefix (lower (get_word_before_cursor text)) (lower name))
                  (dict_keys (description (completer s))))"
    using one_token
    by (simp add: ShellCompleter_get_completions_def NestedCompleter_get_completions_def
          WordCompleter_get_completions_def ok(2))
  have names: "set (dict_keys (description (completer s))) =
             {n. \<exists>rs1 h a kw rs2. rs = rs1 @ (n, h, a, kw) # rs2 \<and> truthy_argument_set a
                   \<and> fst (register_handler E n h a kw
                            (register_all E rs1 (snd (Shell_init E j)))) = None}"
    unfolding s by (rule register_all_description_names [OF init(1)])
  show ?thesis
    using query names ok(1) get_word_before_cursor_word [of "text"]
      register_handler_description_keys [of E n' h' a' kw' s]
    by simp
qed

text \<open>C4 on the text \<^verbatim>\<open>Gre\<close> in the example session.\<close>

theorem C4_witness:
  "ShellCompleter_get_completions ref_env example_shell ''Gre'' = Inr [''grep'', ''greet'']"
proof -
  have s: "example_shell = register_all ref_env example_registrations (snd (Shell_init ref_env True))"
    by (simp add: example_shell_def)
  have one_token: "CHR '' '' \<notin> set (lstrip ''Gre'')"
    by (simp add: lstrip_def is_space_def)
  have word: "get_word_before_cursor ''Gre'' = ''Gre''"
    by (simp add: get_word_before_cursor_def is_word_char_def is_space_def)
  have keys: "dict_keys (description (completer example_shell)) = [''grep'', ''greet'']"
    by (simp add: example_shell_eval dict_keys_def)
  show ?thesis
    using C4_names_with_arguments_in_registration_order [OF s one_token]
    by (simp add: word keys lower_def char_lower_def char_of_def bit_Suc_0_iff)
qed


end
